theory Spec2Isabelle
  imports Complex_Main "HOL-Library.Sublist" "HOL-Library.Multiset" "HOL-Library.AList"
begin

section \<open>Rate-limit budgets (model-integration.ts)\<close>

text \<open>
  Numbers of the source are JavaScript numbers. Token counts, request counts and
  millisecond timestamps are integers there and are modelled by \<open>int\<close>; money and
  fractional seconds are modelled by exact rationals (\<open>rat\<close>) instead of IEEE doubles.
  The limit, remaining and retry-after header values are represented by the integers that
  \<open>parseInt(_, 10)\<close> yields on decimal strings. A reset header is represented by what
  \<open>new Date(_).getTime()\<close> yields on it, which is \<open>NaN\<close> for a string that is not a date, so
  reset times and the waits computed from them are numbers that may be \<open>NaN\<close>.
\<close>

text \<open>A JavaScript number that is an integer or \<open>NaN\<close>.\<close>

datatype jsnum = Num int | NaN

text \<open>\<open>x - n\<close> and \<open>x <= n\<close>, \<open>x > n\<close> for an integer \<open>n\<close>: comparisons with \<open>NaN\<close> are false.\<close>

fun minus_js :: "jsnum \<Rightarrow> int \<Rightarrow> jsnum" where
  "minus_js (Num a) n = Num (a - n)"
| "minus_js NaN n = NaN"

fun le_js :: "jsnum \<Rightarrow> int \<Rightarrow> bool" where
  "le_js (Num a) n = (a \<le> n)"
| "le_js NaN n = False"

fun gt_js :: "jsnum \<Rightarrow> int \<Rightarrow> bool" where
  "gt_js (Num a) n = (a > n)"
| "gt_js NaN n = False"

text \<open>\<open>Math.max\<close> and \<open>Math.min\<close>: \<open>NaN\<close> when an argument is \<open>NaN\<close>.\<close>

fun Math_max :: "jsnum \<Rightarrow> jsnum \<Rightarrow> jsnum" where
  "Math_max (Num a) (Num b) = Num (max a b)"
| "Math_max _ _ = NaN"

fun Math_min :: "jsnum \<Rightarrow> jsnum \<Rightarrow> jsnum" where
  "Math_min (Num a) (Num b) = Num (min a b)"
| "Math_min _ _ = NaN"

text \<open>One sub-window of \<open>RateLimitBudget\<close>: \<open>{ limit, remaining, resetTime }\<close>.\<close>

record window =
  limit :: int
  remaining :: int
  resetTime :: jsnum

record RateLimitBudget =
  requests :: window
  inputTokens :: window
  outputTokens :: window
  initialized :: bool

text \<open>
  \<open>RateLimitHeaders\<close>. A field is \<open>None\<close> when the header is absent or the empty string
  (both are falsy in the source's tests), and \<open>Some n\<close> when it is present with parsed value \<open>n\<close>.
  The \<open>*-reset\<close> fields hold the parsed timestamp in milliseconds, \<open>Some NaN\<close> for a header
  that is present and is not a date.
\<close>

record RateLimitHeaders =
  requests_limit :: "int option"
  requests_remaining :: "int option"
  requests_reset :: "jsnum option"
  input_tokens_limit :: "int option"
  input_tokens_remaining :: "int option"
  input_tokens_reset :: "jsnum option"
  output_tokens_limit :: "int option"
  output_tokens_remaining :: "int option"
  output_tokens_reset :: "jsnum option"
  retry_after :: "int option"

definition no_headers :: RateLimitHeaders where
  "no_headers = \<lparr>requests_limit = None, requests_remaining = None, requests_reset = None,
     input_tokens_limit = None, input_tokens_remaining = None, input_tokens_reset = None,
     output_tokens_limit = None, output_tokens_remaining = None, output_tokens_reset = None,
     retry_after = None\<rparr>"

type_synonym budgets = "string \<Rightarrow> RateLimitBudget option"

definition MAX_SAFE_INTEGER :: int where
  "MAX_SAFE_INTEGER = 9007199254740991"

text \<open>\<open>createUninitializedBudget()\<close>, with \<open>Date.now()\<close> passed in.\<close>

definition createUninitializedBudget :: "int \<Rightarrow> RateLimitBudget" where
  "createUninitializedBudget now =
     (let resetTime = Num (now + 60000) in
      \<lparr>requests = \<lparr>limit = MAX_SAFE_INTEGER, remaining = MAX_SAFE_INTEGER, resetTime = resetTime\<rparr>,
       inputTokens = \<lparr>limit = MAX_SAFE_INTEGER, remaining = MAX_SAFE_INTEGER, resetTime = resetTime\<rparr>,
       outputTokens = \<lparr>limit = MAX_SAFE_INTEGER, remaining = MAX_SAFE_INTEGER, resetTime = resetTime\<rparr>,
       initialized = False\<rparr>)"

text \<open>
  The local closure \<open>parseResetTime\<close> of \<open>updateRateLimitBudgets\<close>. \<open>new Date(_).getTime()\<close>
  does not throw on a string that is not a date, it yields \<open>NaN\<close>; so the \<open>catch\<close> branch,
  which would default to one minute from now, is never taken and \<open>NaN\<close> is returned.
\<close>

definition parseResetTime :: "int \<Rightarrow> jsnum option \<Rightarrow> jsnum" where
  "parseResetTime now resetTimeStr =
     (case resetTimeStr of None \<Rightarrow> Num (now + 60000) | Some t \<Rightarrow> t)"

text \<open>
  One of the three header blocks of \<open>updateRateLimitBudgets\<close>: the sub-window is replaced
  when both the limit and the remaining header are present, and kept otherwise.
\<close>

definition updateWindow :: "int \<Rightarrow> int option \<Rightarrow> int option \<Rightarrow> jsnum option \<Rightarrow> window \<Rightarrow> window" where
  "updateWindow now limitHdr remainingHdr resetHdr w =
     (case (limitHdr, remainingHdr) of
        (Some l, Some r) \<Rightarrow> \<lparr>limit = l, remaining = r, resetTime = parseResetTime now resetHdr\<rparr>
      | _ \<Rightarrow> w)"

text \<open>
  \<open>updateRateLimitBudgets(modelName, headers)\<close>; \<open>headers = None\<close> is a falsy
  (\<open>null\<close>/\<open>undefined\<close>) headers argument.
\<close>

definition updateRateLimitBudgets ::
  "string \<Rightarrow> RateLimitHeaders option \<Rightarrow> int \<Rightarrow> budgets \<Rightarrow> budgets" where
  "updateRateLimitBudgets modelName headers now bs =
     (case headers of
        None \<Rightarrow> bs
      | Some h \<Rightarrow>
          (let budget = (case bs modelName of Some b \<Rightarrow> b | None \<Rightarrow> createUninitializedBudget now);
               budget = budget\<lparr>requests :=
                 updateWindow now (requests_limit h) (requests_remaining h) (requests_reset h)
                   (requests budget)\<rparr>;
               budget = budget\<lparr>inputTokens :=
                 updateWindow now (input_tokens_limit h) (input_tokens_remaining h)
                   (input_tokens_reset h) (inputTokens budget)\<rparr>;
               budget = budget\<lparr>outputTokens :=
                 updateWindow now (output_tokens_limit h) (output_tokens_remaining h)
                   (output_tokens_reset h) (outputTokens budget)\<rparr>;
               budget = budget\<lparr>initialized := True\<rparr>
           in bs(modelName \<mapsto> budget)))"

text \<open>The result object \<open>{ shouldWait, waitTimeMs, reason }\<close> of \<open>checkRateLimitBudget\<close>.\<close>

record check_result =
  shouldWait :: bool
  waitTimeMs :: jsnum
  reason :: string

text \<open>The "budgets have been reset" step for one sub-window.\<close>

definition rollover :: "int \<Rightarrow> window \<Rightarrow> window" where
  "rollover now w =
     (if le_js (resetTime w) now
      then w\<lparr>remaining := limit w, resetTime := Num (now + 60000)\<rparr> else w)"

text \<open>
  \<open>checkRateLimitBudget(modelName, estimatedInputTokens, estimatedOutputTokens)\<close>, with
  \<open>Date.now()\<close> passed in. The source mutates the budget object in place; the model returns
  the updated table next to the result.
\<close>

definition checkRateLimitBudget ::
  "string \<Rightarrow> int \<Rightarrow> int \<Rightarrow> int \<Rightarrow> budgets \<Rightarrow> check_result \<times> budgets" where
  "checkRateLimitBudget modelName estimatedInputTokens estimatedOutputTokens now bs =
     (case bs modelName of
        None \<Rightarrow> (\<lparr>shouldWait = False, waitTimeMs = Num 0, reason = ''No rate limit data yet''\<rparr>, bs)
      | Some budget \<Rightarrow>
          if \<not> initialized budget
          then (\<lparr>shouldWait = False, waitTimeMs = Num 0, reason = ''No rate limit data yet''\<rparr>,
                bs)
          else
            (let rq = rollover now (requests budget);
                 it = rollover now (inputTokens budget);
                 ot = rollover now (outputTokens budget);
                 wt0 = Num 0;
                 rs0 = [];
                 wt1 = (if remaining rq < 1 then Math_max wt0 (minus_js (resetTime rq) now) else wt0);
                 rs1 = (if remaining rq < 1 then ''Request limit reached'' else rs0);
                 wt2 = (if remaining it < estimatedInputTokens
                        then Math_max wt1 (minus_js (resetTime it) now) else wt1);
                 rs2 = (if remaining it < estimatedInputTokens
                        then (if rs1 \<noteq> [] then rs1 @ '', input token limit''
                              else ''Input token limit reached'')
                        else rs1);
                 wt3 = (if remaining ot < estimatedOutputTokens
                        then Math_max wt2 (minus_js (resetTime ot) now) else wt2);
                 rs3 = (if remaining ot < estimatedOutputTokens
                        then (if rs2 \<noteq> [] then rs2 @ '', output token limit''
                              else ''Output token limit reached'')
                        else rs2);
                 rq' = (if wt3 = Num 0 then rq\<lparr>remaining := max 0 (remaining rq - 1)\<rparr> else rq);
                 it' = (if wt3 = Num 0
                        then it\<lparr>remaining := max 0 (remaining it - estimatedInputTokens)\<rparr> else it);
                 ot' = (if wt3 = Num 0
                        then ot\<lparr>remaining := max 0 (remaining ot - estimatedOutputTokens)\<rparr> else ot)
             in (\<lparr>shouldWait = gt_js wt3 0, waitTimeMs = Math_min wt3 (Num 60000), reason = rs3\<rparr>,
                 bs(modelName \<mapsto> budget\<lparr>requests := rq', inputTokens := it', outputTokens := ot'\<rparr>))))"

section \<open>Usage ledger (model-integration.ts)\<close>

text \<open>
  \<open>ModelUsage\<close>. The optional counters are all initialised to \<open>0\<close> by the class, so
  \<open>(x || 0) + n\<close> is \<open>x + n\<close>.
\<close>

record ModelUsage =
  promptTokens :: int
  completionTokens :: int
  cost :: rat
  cachedRequests :: int
  liveRequests :: int
  cacheCreationTokens :: int
  cacheReadTokens :: int
  costWithoutCaching :: rat
  cachingSavings :: rat
  rateLimitRetries :: int
  preemptiveDelays :: int

definition initialUsage :: ModelUsage where
  "initialUsage = \<lparr>promptTokens = 0, completionTokens = 0, cost = 0, cachedRequests = 0,
     liveRequests = 0, cacheCreationTokens = 0, cacheReadTokens = 0, costWithoutCaching = 0,
     cachingSavings = 0, rateLimitRetries = 0, preemptiveDelays = 0\<rparr>"

text \<open>One row of the \<open>PRICING\<close> table, in dollars per token.\<close>

record pricing =
  inputPrice :: rat
  outputPrice :: rat
  cacheWritePrice :: rat
  cacheReadPrice :: rat

definition PRICING :: "string \<Rightarrow> pricing option" where
  "PRICING modelName =
     (if modelName = ''claude-3-7-sonnet-latest''
      then Some \<lparr>inputPrice = 3 / 1000000, outputPrice = 15 / 1000000,
                 cacheWritePrice = (375 / 100) / 1000000, cacheReadPrice = (3 / 10) / 1000000\<rparr>
      else if modelName = ''claude-3-5-haiku-latest''
      then Some \<lparr>inputPrice = (8 / 10) / 1000000, outputPrice = 4 / 1000000,
                 cacheWritePrice = 1 / 1000000, cacheReadPrice = (8 / 100) / 1000000\<rparr>
      else None)"

text \<open>Truthiness of an optional number: \<open>undefined\<close> and \<open>0\<close> are falsy.\<close>

definition truthy :: "int option \<Rightarrow> bool" where
  "truthy x = (case x of None \<Rightarrow> False | Some n \<Rightarrow> n \<noteq> 0)"

text \<open>
  \<open>updateUsage(modelName, promptTokens, completionTokens, fromCache, cacheCreationTokens?,
  cacheReadTokens?)\<close>; the debug message is left out.
\<close>

definition updateUsage ::
  "string \<Rightarrow> int \<Rightarrow> int \<Rightarrow> bool \<Rightarrow> int option \<Rightarrow> int option \<Rightarrow> ModelUsage \<Rightarrow> ModelUsage" where
  "updateUsage modelName promptTokensArg completionTokensArg fromCache cacheCreationTokensArg
       cacheReadTokensArg u =
     (case PRICING modelName of
        None \<Rightarrow> u
      | Some p \<Rightarrow>
          (let u = u\<lparr>promptTokens := promptTokens u + promptTokensArg\<rparr>;
               u = u\<lparr>completionTokens := completionTokens u + completionTokensArg\<rparr>;
               u = (if fromCache then u\<lparr>cachedRequests := cachedRequests u + 1\<rparr>
                    else u\<lparr>liveRequests := liveRequests u + 1\<rparr>);
               u = (if truthy cacheCreationTokensArg
                    then u\<lparr>cacheCreationTokens := cacheCreationTokens u + the cacheCreationTokensArg\<rparr>
                    else u);
               u = (if truthy cacheReadTokensArg
                    then u\<lparr>cacheReadTokens := cacheReadTokens u + the cacheReadTokensArg\<rparr>
                    else u);
               inputCost = of_int promptTokensArg * inputPrice p;
               outputCost = of_int completionTokensArg * outputPrice p;
               cacheWriteCost = (if truthy cacheCreationTokensArg
                                 then of_int (the cacheCreationTokensArg) * cacheWritePrice p else 0);
               cacheReadCost = (if truthy cacheReadTokensArg
                                then of_int (the cacheReadTokensArg) * cacheReadPrice p else 0);
               u = u\<lparr>cost := cost u + (inputCost + outputCost + cacheWriteCost + cacheReadCost)\<rparr>;
               costWithoutCaching' = of_int (promptTokens u) * inputPrice p
                                     + of_int (completionTokens u) * outputPrice p;
               u = u\<lparr>costWithoutCaching := costWithoutCaching'\<rparr>;
               cachingSavings' = costWithoutCaching' - cost u;
               u = u\<lparr>cachingSavings := cachingSavings'\<rparr>
           in u))"

section \<open>Response cache (cache-middleware.ts)\<close>

text \<open>
  Errors of a request. \<open>RetryError_APICallError message headers\<close> is the SDK's \<open>RetryError\<close>
  whose \<open>lastError\<close> is an \<open>APICallError\<close> with that message and those \<open>responseHeaders\<close>;
  \<open>RateLimitExceeded modelName retryAttempt\<close> is the \<open>Error\<close> thrown by \<open>handleRateLimit\<close>
  with the message "Rate limit exceeded for modelName after retryAttempt retries. ...";
  \<open>CacheIOError\<close> is an exception of the SQLite driver; \<open>OtherError\<close> is any other exception.
\<close>

datatype error =
    RetryError_APICallError string "RateLimitHeaders option"
  | RateLimitExceeded string nat
  | CacheIOError string
  | OtherError string

text \<open>
  What a model call resolves to, as far as \<open>generateObject\<close> reads it: \<open>result.object\<close>,
  \<open>result.providerMetadata.anthropic.responseHeaders\<close> (\<open>None\<close> when any link of that chain
  is falsy), \<open>result.usage\<close> as \<open>(promptTokens || 0, completionTokens || 0)\<close>, and the two
  cache token counts (\<open>None\<close> unless they are numbers).
\<close>

record 'o response =
  object :: 'o
  responseHeaders :: "RateLimitHeaders option"
  usageTokens :: "(int \<times> int) option"
  cacheCreationInputTokens :: "int option"
  cacheReadInputTokens :: "int option"

text \<open>
  The \<open>llm_cache\<close> table of \<open>SQLiteCacheManager\<close>: key to (value, timestamp). The two flags
  say whether the driver throws on the next read and on the next write.
\<close>

record 'o cache_store =
  rows :: "string \<Rightarrow> ('o response \<times> int) option"
  getFails :: bool
  setFails :: bool

text \<open>\<open>SQLiteCacheManager.get(key)\<close>: the value, \<open>None\<close> for \<open>null\<close> (a miss), or the exception.\<close>

definition cacheGet :: "string \<Rightarrow> 'o cache_store \<Rightarrow> error + 'o response option" where
  "cacheGet key st =
     (if getFails st then Inl (CacheIOError ''get'')
      else Inr (case rows st key of None \<Rightarrow> None | Some row \<Rightarrow> Some (fst row)))"

text \<open>\<open>SQLiteCacheManager.set(key, value)\<close>: \<open>INSERT OR REPLACE\<close> with \<open>Date.now()\<close>.\<close>

definition cacheSet :: "string \<Rightarrow> 'o response \<Rightarrow> int \<Rightarrow> 'o cache_store \<Rightarrow> error + 'o cache_store" where
  "cacheSet key v now st =
     (if setFails st then Inl (CacheIOError ''set'')
      else Inr (st\<lparr>rows := (rows st)(key \<mapsto> (v, now))\<rparr>))"

text \<open>\<open>SQLiteCacheManager.clear()\<close>.\<close>

definition cacheClear :: "'o cache_store \<Rightarrow> 'o cache_store" where
  "cacheClear st = st\<lparr>rows := Map.empty\<rparr>"

text \<open>A readable and writable store without rows.\<close>

definition emptyStore :: "'o cache_store" where
  "emptyStore = \<lparr>rows = Map.empty, getFails = False, setFails = False\<rparr>"

section \<open>Requests (model-integration.ts)\<close>

text \<open>
  The state a request runs in: the two mutable fields of \<open>ModelIntegration\<close>, the cache
  store, the clock read by \<open>Date.now()\<close>, and two observation fields: the number of live
  calls made to the service so far and the list of delays slept.
\<close>

record 'o world =
  usage :: ModelUsage
  rateLimitBudgets :: budgets
  store :: "'o cache_store"
  clock :: int
  calls :: nat
  sleeps :: "rat list"

text \<open>The constructor options, fixed for the lifetime of the instance.\<close>

record config =
  maxRateLimitRetries :: int
  cacheEnabled :: bool

definition MAX_RATE_LIMIT_RETRIES :: int where
  "MAX_RATE_LIMIT_RETRIES = 5"

text \<open>The constructor: \<open>options.maxRateLimitRetries ?? MAX_RATE_LIMIT_RETRIES\<close>.\<close>

definition newConfig :: "int option \<Rightarrow> bool \<Rightarrow> config" where
  "newConfig maxRetriesOpt cacheOpt =
     \<lparr>maxRateLimitRetries = (case maxRetriesOpt of Some n \<Rightarrow> n | None \<Rightarrow> MAX_RATE_LIMIT_RETRIES),
      cacheEnabled = cacheOpt\<rparr>"

definition newBudgets :: "int \<Rightarrow> budgets" where
  "newBudgets now =
     Map.empty(''claude-3-7-sonnet-latest'' \<mapsto> createUninitializedBudget now,
               ''claude-3-5-haiku-latest'' \<mapsto> createUninitializedBudget now)"

definition newWorld :: "'o cache_store \<Rightarrow> int \<Rightarrow> 'o world" where
  "newWorld st now =
     \<lparr>usage = initialUsage, rateLimitBudgets = newBudgets now, store = st, clock = now,
      calls = 0, sleeps = []\<rparr>"

text \<open>
  \<open>sleep(ms)\<close>: the timer fires once \<open>ms\<close> milliseconds have passed. Time spent elsewhere is
  not modelled.
\<close>

definition sleep :: "rat \<Rightarrow> 'o world \<Rightarrow> 'o world" where
  "sleep ms w = w\<lparr>clock := clock w + \<lceil>ms\<rceil>, sleeps := sleeps w @ [ms]\<rparr>"

text \<open>
  The unwrapped model's \<open>doGenerate\<close>: one live exchange with the service. The service is a
  parameter: \<open>service k\<close> is what the \<open>k\<close>-th live call resolves to.
\<close>

definition doGenerate :: "(nat \<Rightarrow> error + 'o response) \<Rightarrow> 'o world \<Rightarrow> (error + 'o response) \<times> 'o world" where
  "doGenerate service w = (service (calls w), w\<lparr>calls := calls w + 1\<rparr>)"

text \<open>
  \<open>cacheMiddleware.wrapGenerate\<close>; \<open>cacheKey\<close> is \<open>JSON.stringify(params)\<close>. The re-dating of
  \<open>response.timestamp\<close> on a hit is left out.
\<close>

definition wrapGenerate ::
  "(nat \<Rightarrow> error + 'o response) \<Rightarrow> string \<Rightarrow> 'o world \<Rightarrow> (error + 'o response) \<times> 'o world" where
  "wrapGenerate service cacheKey w =
     (case cacheGet cacheKey (store w) of
        Inl e \<Rightarrow> (Inl e, w)
      | Inr (Some cached) \<Rightarrow> (Inr cached, w)
      | Inr None \<Rightarrow>
          (case doGenerate service w of
             (Inl e, w1) \<Rightarrow> (Inl e, w1)
           | (Inr result, w1) \<Rightarrow>
               (case cacheSet cacheKey result (clock w1) (store w1) of
                  Inl e \<Rightarrow> (Inl e, w1)
                | Inr st \<Rightarrow> (Inr result, w1\<lparr>store := st\<rparr>))))"

text \<open>
  The SDK's \<open>generateObject({ model, ... })\<close> as far as this repository decides it: the call
  goes to the model, which the constructor wrapped in \<open>cacheMiddleware\<close> when \<open>cacheEnabled\<close>.
\<close>

definition callModel ::
  "config \<Rightarrow> (nat \<Rightarrow> error + 'o response) \<Rightarrow> string \<Rightarrow> 'o world \<Rightarrow> (error + 'o response) \<times> 'o world" where
  "callModel cfg service cacheKey w =
     (if cacheEnabled cfg then wrapGenerate service cacheKey w else doGenerate service w)"

text \<open>
  \<open>handleRateLimit(error, retryAttempt, modelName)\<close>; \<open>headers\<close> is \<open>error.responseHeaders\<close>
  and \<open>jitter\<close> the value of \<open>Math.random() * 1000\<close>. The result is the delay in milliseconds.
\<close>

definition handleRateLimit ::
  "config \<Rightarrow> rat \<Rightarrow> RateLimitHeaders option \<Rightarrow> nat \<Rightarrow> string \<Rightarrow> 'o world \<Rightarrow> (error + rat) \<times> 'o world" where
  "handleRateLimit cfg jitter headers retryAttempt modelName w =
     (let w = w\<lparr>usage := (usage w)\<lparr>rateLimitRetries := rateLimitRetries (usage w) + 1\<rparr>\<rparr>
      in if int retryAttempt \<ge> maxRateLimitRetries cfg
         then (Inl (RateLimitExceeded modelName retryAttempt), w)
         else
           (case (case headers of None \<Rightarrow> None | Some h \<Rightarrow> retry_after h) of
              Some ra \<Rightarrow>
                (let retryDelaySeconds = of_int ra;
                     w = w\<lparr>rateLimitBudgets :=
                            updateRateLimitBudgets modelName headers (clock w) (rateLimitBudgets w)\<rparr>;
                     retryDelaySeconds = retryDelaySeconds + 1 / 2
                 in (Inr (retryDelaySeconds * 1000), w))
            | None \<Rightarrow>
                (let baseDelay = 2 ^ retryAttempt * 1000;
                     retryDelaySeconds = min 60 ((baseDelay + jitter) / 1000);
                     retryDelaySeconds = retryDelaySeconds + 1 / 2
                 in (Inr (retryDelaySeconds * 1000), w))))"

text \<open>
  The test of the \<open>catch\<close> block: a \<open>RetryError\<close> whose last error is an \<open>APICallError\<close> with a
  message that includes "429" or "rate limit".
\<close>

fun isRateLimitError :: "error \<Rightarrow> bool" where
  "isRateLimitError (RetryError_APICallError message _) =
     (sublist ''429'' message \<or> sublist ''rate limit'' message)"
| "isRateLimitError _ = False"

fun errorHeaders :: "error \<Rightarrow> RateLimitHeaders option" where
  "errorHeaders (RetryError_APICallError _ headers) = headers"
| "errorHeaders _ = None"

text \<open>
  The head of the loop body of \<open>generateObject\<close>: the budget check, and the preemptive
  sleep when the check says to wait. The wait is then a number; a timer set to \<open>NaN\<close> would
  fire at once.
\<close>

definition throttle :: "string \<Rightarrow> int \<Rightarrow> int \<Rightarrow> 'o world \<Rightarrow> 'o world" where
  "throttle modelName estimatedInput estimatedOutput w =
     (let chk = checkRateLimitBudget modelName estimatedInput estimatedOutput (clock w)
                  (rateLimitBudgets w);
          w = w\<lparr>rateLimitBudgets := snd chk\<rparr>
      in if shouldWait (fst chk)
         then sleep (case waitTimeMs (fst chk) of Num n \<Rightarrow> of_int n | NaN \<Rightarrow> 0)
                (w\<lparr>usage := (usage w)\<lparr>preemptiveDelays := preemptiveDelays (usage w) + 1\<rparr>\<rparr>)
         else w)"

text \<open>
  The bookkeeping of the \<open>try\<close> block after the call has resolved: the budgets are updated
  from the response headers when there are any, and the usage is recorded as a live request
  when the result carries usage.
\<close>

definition recordSuccess :: "string \<Rightarrow> 'o response \<Rightarrow> 'o world \<Rightarrow> 'o world" where
  "recordSuccess modelName result w =
     (let w = w\<lparr>rateLimitBudgets :=
                 updateRateLimitBudgets modelName (responseHeaders result) (clock w)
                   (rateLimitBudgets w)\<rparr>
      in case usageTokens result of
           None \<Rightarrow> w
         | Some (p, c) \<Rightarrow>
             w\<lparr>usage := updateUsage modelName p c False
                  (Some (case cacheCreationInputTokens result of Some n \<Rightarrow> n | None \<Rightarrow> 0))
                  (Some (case cacheReadInputTokens result of Some n \<Rightarrow> n | None \<Rightarrow> 0))
                  (usage w)\<rparr>)"

text \<open>
  The \<open>while (true)\<close> loop of \<open>generateObject\<close>, from the given \<open>retryAttempt\<close>. \<open>jitter a\<close> is
  the value of \<open>Math.random() * 1000\<close> drawn at retry attempt \<open>a\<close>.
\<close>

function requestLoop ::
  "config \<Rightarrow> (nat \<Rightarrow> error + 'o response) \<Rightarrow> (nat \<Rightarrow> rat) \<Rightarrow> string \<Rightarrow> string \<Rightarrow> int \<Rightarrow> int \<Rightarrow>
   nat \<Rightarrow> 'o world \<Rightarrow> (error + 'o) \<times> 'o world" where
  "requestLoop cfg service jitter modelName cacheKey estimatedInput estimatedOutput retryAttempt w =
     (case callModel cfg service cacheKey (throttle modelName estimatedInput estimatedOutput w) of
        (Inr result, w) \<Rightarrow> (Inr (object result), recordSuccess modelName result w)
      | (Inl err, w) \<Rightarrow>
          if isRateLimitError err
          then (case handleRateLimit cfg (jitter retryAttempt) (errorHeaders err) retryAttempt
                       modelName w of
                  (Inl e, w) \<Rightarrow> (Inl e, w)
                | (Inr waitTime, w) \<Rightarrow>
                    requestLoop cfg service jitter modelName cacheKey estimatedInput
                      estimatedOutput (retryAttempt + 1) (sleep waitTime w))
          else (Inl err, w))"
  by pat_completeness auto
termination
  by (relation "measure (\<lambda>(cfg, service, jitter, modelName, cacheKey, ei, eo, retryAttempt, w).
        nat (maxRateLimitRetries cfg - int retryAttempt))")
     (auto simp: handleRateLimit_def Let_def split: if_splits)

text \<open>The options object of \<open>generateObject\<close>; a message is given by its content string.\<close>

record options =
  prompt :: "string option"
  messages :: "string list option"
  useSmart :: bool
  estimatedInputTokens :: "int option"
  estimatedOutputTokens :: "int option"

definition modelNameOf :: "options \<Rightarrow> string" where
  "modelNameOf opts =
     (if useSmart opts then ''claude-3-7-sonnet-latest'' else ''claude-3-5-haiku-latest'')"

text \<open>
  The input estimate of \<open>generateObject\<close>: the explicit estimate, or a third of the length
  of the messages or of the prompt, or 1000; times 1.2, rounded up.
\<close>

definition estimatedInputOf :: "options \<Rightarrow> int" where
  "estimatedInputOf opts =
     (let estimatedInput =
            (if truthy (estimatedInputTokens opts) then of_int (the (estimatedInputTokens opts))
             else case messages opts of
                    Some msgs \<Rightarrow> foldl (\<lambda>sum content. sum + of_nat (length content) / 3) 0 msgs
                  | None \<Rightarrow>
                      (case prompt opts of
                         Some p \<Rightarrow> if p \<noteq> [] then of_nat (length p) / 3 else 1000
                       | None \<Rightarrow> (1000 :: rat)));
          estimatedInput = (of_int \<lceil>estimatedInput * (12 / 10)\<rceil> :: rat)
      in \<lceil>estimatedInput\<rceil>)"

definition estimatedOutputOf :: "options \<Rightarrow> int" where
  "estimatedOutputOf opts =
     (if truthy (estimatedOutputTokens opts) then the (estimatedOutputTokens opts) else 500)"

text \<open>
  \<open>generateObject(schema, options)\<close>. \<open>cacheKey\<close> is the \<open>JSON.stringify\<close> of the call
  parameters the SDK derives from the schema, the messages or prompt and the system prompt.
\<close>

definition generateObject ::
  "config \<Rightarrow> (nat \<Rightarrow> error + 'o response) \<Rightarrow> (nat \<Rightarrow> rat) \<Rightarrow> string \<Rightarrow> options \<Rightarrow> 'o world \<Rightarrow>
   (error + 'o) \<times> 'o world" where
  "generateObject cfg service jitter cacheKey opts w =
     requestLoop cfg service jitter (modelNameOf opts) cacheKey (estimatedInputOf opts)
       (estimatedOutputOf opts) 0 w"

section \<open>Endpoint enrichment and the dispatcher (semantic-enricher.ts)\<close>

record param =
  paramName :: string
  paramDescription :: "string option"
  paramRequired :: bool

text \<open>A \<open>NormalizedEndpoint\<close>, as far as the enricher's control flow reads it.\<close>

record endpoint =
  epId :: string
  epMethod :: string
  epPath :: string
  epParameters :: "param list"
  epResponses :: "(string \<times> string option) list"

text \<open>The objects the three model requests of an endpoint produce.\<close>

record endpointInfo =
  infoDescription :: string
  infoPurpose :: string
  infoOperationType :: string
  infoResourceType :: string

record paramInfo =
  piName :: string
  piDescription :: string
  piImportance :: string

record responseInfo =
  riStatusCode :: string
  riDescription :: string
  riResolutionSteps :: "string list option"

record enhancedParam =
  epParam :: param
  epEnhancedDescription :: "string option"
  epImportance :: string

record enhancedEndpoint =
  eeEndpoint :: endpoint
  eeInfo :: endpointInfo
  eeParameters :: "enhancedParam list"
  eeResponses :: "(string \<times> string option \<times> string list option) list"

text \<open>
  What the three \<open>modelIntegration.generateObject\<close> calls of one endpoint resolve to. They
  are parameters of the model of the enricher.
\<close>

record subrequests =
  descriptionRequest :: "error + endpointInfo"
  parametersRequest :: "error + paramInfo list"
  responsesRequest :: "error + responseInfo list"

text \<open>A line written by \<open>logger.error\<close>: the message prefix, the endpoint and the error.\<close>

datatype logline = ErrorEnhancing string endpoint error

definition fallbackParam :: "param \<Rightarrow> enhancedParam" where
  "fallbackParam p =
     \<lparr>epParam = p, epEnhancedDescription = paramDescription p,
      epImportance = (if paramRequired p then ''critical'' else ''optional'')\<rparr>"

text \<open>\<open>enhanceParameters(endpoint)\<close>: the value and the lines logged.\<close>

definition enhanceParameters ::
  "endpoint \<Rightarrow> (error + paramInfo list) \<Rightarrow> enhancedParam list \<times> logline list" where
  "enhanceParameters ep request =
     (if epParameters ep = [] then ([], [])
      else case request of
             Inr enhancedParams \<Rightarrow>
               (map (\<lambda>p. case find (\<lambda>e. piName e = paramName p) enhancedParams of
                            Some enhanced \<Rightarrow>
                              \<lparr>epParam = p, epEnhancedDescription = Some (piDescription enhanced),
                               epImportance = piImportance enhanced\<rparr>
                          | None \<Rightarrow> fallbackParam p)
                    (epParameters ep), [])
           | Inl e \<Rightarrow>
               (map fallbackParam (epParameters ep), [ErrorEnhancing ''parameters'' ep e]))"

text \<open>\<open>enhanceResponses(endpoint, purpose)\<close>: the value and the lines logged.\<close>

definition enhanceResponses ::
  "endpoint \<Rightarrow> (error + responseInfo list) \<Rightarrow>
   (string \<times> string option \<times> string list option) list \<times> logline list" where
  "enhanceResponses ep request =
     (if epResponses ep = [] then ([], [])
      else case request of
             Inr enhancedResponsesArray \<Rightarrow>
               (foldl (\<lambda>acc resp. AList.update (riStatusCode resp)
                                     (Some (riDescription resp), riResolutionSteps resp) acc)
                      [] enhancedResponsesArray, [])
           | Inl e \<Rightarrow>
               (foldl (\<lambda>acc (statusCode, description).
                         AList.update statusCode
                           (description,
                            if prefix ''4'' statusCode \<or> prefix ''5'' statusCode
                            then Some [''Verify your request parameters'', ''Check authentication'']
                            else None) acc)
                      [] (epResponses ep), [ErrorEnhancing ''responses'' ep e]))"

text \<open>
  How an awaited task body ends for its caller: it returns a value, it throws, or it ends
  the process with \<open>process.exit(1)\<close>.
\<close>

datatype 'r outcome = Returned 'r | Thrown error | Exited

text \<open>
  \<open>enhanceEndpoint(endpoint)\<close>. \<open>enhanceEndpointDescription\<close> has no handler of its own, so its
  failure reaches the \<open>catch\<close> of \<open>enhanceEndpoint\<close>, which logs it and calls
  \<open>process.exit(1)\<close>.
\<close>

definition enhanceEndpoint ::
  "endpoint \<Rightarrow> subrequests \<Rightarrow> enhancedEndpoint outcome \<times> logline list" where
  "enhanceEndpoint ep req =
     (case descriptionRequest req of
        Inl e \<Rightarrow> (Exited, [ErrorEnhancing ''endpoint'' ep e])
      | Inr enhancedInfo \<Rightarrow>
          (let (enhancedParameters, log1) = enhanceParameters ep (parametersRequest req);
               (enhancedResponses, log2) = enhanceResponses ep (responsesRequest req)
           in (Returned \<lparr>eeEndpoint = ep, eeInfo = enhancedInfo,
                          eeParameters = enhancedParameters, eeResponses = enhancedResponses\<rparr>,
               log1 @ log2)))"

text \<open>
  The state of \<open>processEndpointsWithConcurrency\<close>. \<open>workers ! i\<close> is the \<open>i\<close>-th call of
  \<open>processQueue\<close>: \<open>Some endpoint\<close> while it awaits \<open>enhanceEndpoint(endpoint)\<close>, \<open>None\<close> once
  its loop has ended. \<open>exited\<close> says that the process has been ended.
\<close>

record 'r dispatcher =
  queue :: "endpoint list"
  workers :: "endpoint option list"
  inProgress :: "nat set"
  completed :: nat
  results :: "'r list"
  errorLog :: "logline list"
  exited :: bool

text \<open>\<open>endpoints.indexOf(endpoint)\<close> for an endpoint taken from the list.\<close>

definition indexOf :: "'a list \<Rightarrow> 'a \<Rightarrow> nat" where
  "indexOf xs x = length (takeWhile (\<lambda>y. y \<noteq> x) xs)"

text \<open>
  The synchronous stretch of \<open>processQueue\<close> from the loop test to the \<open>await\<close>: with an empty
  queue the loop ends, otherwise the worker shifts the next endpoint off the queue, marks it
  in progress and starts \<open>enhanceEndpoint\<close> on it.
\<close>

definition claim :: "endpoint list \<Rightarrow> nat \<Rightarrow> 'r dispatcher \<Rightarrow> 'r dispatcher" where
  "claim endpoints i s =
     (case queue s of
        [] \<Rightarrow> s\<lparr>workers := (workers s)[i := None]\<rparr>
      | ep # rest \<Rightarrow>
          s\<lparr>queue := rest,
            inProgress := insert (indexOf endpoints ep) (inProgress s),
            workers := (workers s)[i := Some ep]\<rparr>)"

text \<open>
  The start of \<open>processEndpointsWithConcurrency\<close>: the \<open>for\<close> loop calls \<open>processQueue()\<close>
  \<open>Math.min(concurrency, endpoints.length)\<close> times, and each call runs up to its first
  \<open>await\<close>.
\<close>

definition start :: "int \<Rightarrow> endpoint list \<Rightarrow> 'r dispatcher" where
  "start concurrency endpoints =
     fold (\<lambda>i s. claim endpoints i (s\<lparr>workers := workers s @ [None]\<rparr>))
       [0 ..< nat (min concurrency (int (length endpoints)))]
       \<lparr>queue = endpoints, workers = [], inProgress = {}, completed = 0, results = [],
        errorLog = [], exited = False\<rparr>"

text \<open>
  The continuation of worker \<open>i\<close> when its awaited \<open>enhanceEndpoint\<close> settles; \<open>body\<close> gives
  how the task of an endpoint ends and what it logs. Nothing happens for a worker that is
  not waiting, or after the process has been ended.
\<close>

definition resume ::
  "(endpoint \<Rightarrow> 'r outcome \<times> logline list) \<Rightarrow> endpoint list \<Rightarrow> nat \<Rightarrow> 'r dispatcher \<Rightarrow> 'r dispatcher" where
  "resume body endpoints i s =
     (if exited s \<or> i \<ge> length (workers s) then s
      else case workers s ! i of
             None \<Rightarrow> s
           | Some ep \<Rightarrow>
               (let currentIndex = indexOf endpoints ep
                in case body ep of
                     (Exited, lg) \<Rightarrow> s\<lparr>errorLog := errorLog s @ lg, exited := True\<rparr>
                   | (Returned r, lg) \<Rightarrow>
                       claim endpoints i
                         (s\<lparr>errorLog := errorLog s @ lg,
                            results := results s @ [r],
                            inProgress := inProgress s - {currentIndex},
                            completed := completed s + 1\<rparr>)
                   | (Thrown e, lg) \<Rightarrow>
                       claim endpoints i
                         (s\<lparr>errorLog := errorLog s @ lg @ [ErrorEnhancing ''endpoint'' ep e],
                            inProgress := inProgress s - {currentIndex},
                            completed := completed s + 1\<rparr>)))"

text \<open>A run: the workers whose awaited task settles, in the order in which they settle.\<close>

definition run ::
  "(endpoint \<Rightarrow> 'r outcome \<times> logline list) \<Rightarrow> endpoint list \<Rightarrow> nat list \<Rightarrow> 'r dispatcher \<Rightarrow> 'r dispatcher" where
  "run body endpoints schedule s = foldl (\<lambda>s i. resume body endpoints i s) s schedule"

text \<open>The number of tasks in flight, and whether \<open>Promise.all\<close> has resolved.\<close>

definition inFlightTasks :: "'r dispatcher \<Rightarrow> endpoint list" where
  "inFlightTasks s = map the (filter (\<lambda>w. w \<noteq> None) (workers s))"

definition inFlight :: "'r dispatcher \<Rightarrow> nat" where
  "inFlight s = length (inFlightTasks s)"

definition finished :: "'r dispatcher \<Rightarrow> bool" where
  "finished s = (\<not> exited s \<and> list_all (\<lambda>w. w = None) (workers s))"

text \<open>
  The task body the dispatcher awaits: \<open>this.enhanceEndpoint(endpoint)\<close>, where \<open>reqs\<close> gives
  what the model requests of each endpoint resolve to.
\<close>

definition enrich ::
  "(endpoint \<Rightarrow> subrequests) \<Rightarrow> endpoint \<Rightarrow> enhancedEndpoint outcome \<times> logline list" where
  "enrich reqs ep = enhanceEndpoint ep (reqs ep)"

text \<open>The values pushed to \<open>results\<close> by a list of tasks that settled in that order.\<close>

definition returnedValues :: "(endpoint \<Rightarrow> 'r outcome \<times> logline list) \<Rightarrow> endpoint list \<Rightarrow> 'r list" where
  "returnedValues body settled =
     concat (map (\<lambda>ep. case fst (body ep) of Returned r \<Rightarrow> [r] | _ \<Rightarrow> []) settled)"

text \<open>
  The invariant of the dispatcher while no task has ended the process: the number of
  workers is fixed, no worker has stopped while the queue is non-empty, every index marked
  in progress belongs to a task in flight, and the queued, in-flight and settled tasks
  together are exactly the endpoints, each once.
\<close>

definition dispatcher_inv ::
  "(endpoint \<Rightarrow> 'r outcome \<times> logline list) \<Rightarrow> endpoint list \<Rightarrow> int \<Rightarrow> 'r dispatcher \<Rightarrow> bool" where
  "dispatcher_inv body endpoints concurrency s \<longleftrightarrow>
     \<not> exited s \<and>
     length (workers s) = nat (min concurrency (int (length endpoints))) \<and>
     (queue s \<noteq> [] \<longrightarrow> None \<notin> set (workers s)) \<and>
     inProgress s \<subseteq> indexOf endpoints ` set (inFlightTasks s) \<and>
     (\<exists>settled. mset (queue s) + mset (inFlightTasks s) + mset settled = mset endpoints \<and>
                completed s = length settled \<and>
                results s = returnedValues body settled)"

section \<open>Example inputs\<close>

definition exampleOptions :: options where
  "exampleOptions = \<lparr>prompt = None, messages = None, useSmart = False,
     estimatedInputTokens = Some 1200, estimatedOutputTokens = Some 400\<rparr>"

definition exampleResponse :: "nat response" where
  "exampleResponse = \<lparr>object = 42, responseHeaders = None, usageTokens = Some (1200, 300),
     cacheCreationInputTokens = None, cacheReadInputTokens = None\<rparr>"

definition answeringService :: "nat \<Rightarrow> error + nat response" where
  "answeringService k = Inr exampleResponse"


definition noJitter :: "nat \<Rightarrow> rat" where
  "noJitter a = 0"



definition exampleEndpoint :: "string \<Rightarrow> endpoint" where
  "exampleEndpoint i = \<lparr>epId = i, epMethod = ''GET'', epPath = ''/items/'' @ i,
     epParameters = [], epResponses = []\<rparr>"

definition exampleInfo :: endpointInfo where
  "exampleInfo = \<lparr>infoDescription = ''Returns one item'', infoPurpose = ''Read an item'',
     infoOperationType = ''READ'', infoResourceType = ''Item''\<rparr>"

text \<open>All three requests of every endpoint succeed.\<close>

definition allSucceed :: "endpoint \<Rightarrow> subrequests" where
  "allSucceed ep = \<lparr>descriptionRequest = Inr exampleInfo, parametersRequest = Inr [],
     responsesRequest = Inr []\<rparr>"

text \<open>The description request of the endpoint with the given id exhausts its retries.\<close>

definition descriptionFailsFor :: "string \<Rightarrow> endpoint \<Rightarrow> subrequests" where
  "descriptionFailsFor i ep =
     (if epId ep = i
      then (allSucceed ep)\<lparr>descriptionRequest :=
             Inl (RateLimitExceeded ''claude-3-5-haiku-latest'' 5)\<rparr>
      else allSucceed ep)"

section \<open>Properties of the budget tracker\<close>


lemma rollover_NaN:
  "resetTime w = NaN \<Longrightarrow> rollover now w = w"
  by (simp add: rollover_def)





text \<open>
  C9. A model identity whose budget is uninitialised (no entry in the table, or an entry
  whose \<open>initialized\<close> flag is false) is never told to wait, whatever the token estimates and
  the time; the call returns \<open>waitTimeMs = 0\<close> and leaves the table as it was.
\<close>

theorem checkBudget_uninitialized_never_waits:
  assumes "case bs m of None \<Rightarrow> True | Some b \<Rightarrow> \<not> initialized b"
  shows "\<not> shouldWait (fst (checkRateLimitBudget m ei eo now bs)) \<and>
         waitTimeMs (fst (checkRateLimitBudget m ei eo now bs)) = Num 0 \<and>
         snd (checkRateLimitBudget m ei eo now bs) = bs"
proof (cases "bs m")
  case None
  then show ?thesis by (simp add: checkRateLimitBudget_def)
next
  case (Some b)
  with assms have "\<not> initialized b" by simp
  with Some show ?thesis by (simp add: checkRateLimitBudget_def)
qed

theorem checkBudget_uninitialized_never_waits_witness:
  "\<not> initialized (createUninitializedBudget 0) \<and>
   \<not> shouldWait (fst (checkRateLimitBudget ''claude-3-5-haiku-latest'' 1200 400 70000
        (Map.empty(''claude-3-5-haiku-latest'' \<mapsto> createUninitializedBudget 0))))"
  using checkBudget_uninitialized_never_waits[where m="''claude-3-5-haiku-latest''"
      and bs="Map.empty(''claude-3-5-haiku-latest'' \<mapsto> createUninitializedBudget 0)"
      and ei=1200 and eo=400 and now=70000]
  by (simp add: createUninitializedBudget_def Let_def)






lemma updateWindow_present:
  "updateWindow now (Some l) (Some r) t w =
     \<lparr>limit = l, remaining = r,
      resetTime = (case t of None \<Rightarrow> Num (now + 60000) | Some d \<Rightarrow> d)\<rparr>"
  by (simp add: updateWindow_def parseResetTime_def)



text \<open>
  A reset header that is not a date is stored as \<open>NaN\<close>. The window then never rolls over
  and, once its constraint fails, the check neither waits nor reserves.
\<close>

lemma unparseable_reset_never_waits:
  "fst (checkRateLimitBudget ''claude-3-5-haiku-latest'' 100 100 2000
     (updateRateLimitBudgets ''claude-3-5-haiku-latest''
        (Some (no_headers\<lparr>requests_limit := Some 50, requests_remaining := Some 0,
                           requests_reset := Some NaN\<rparr>)) 1000
        (Map.empty(''claude-3-5-haiku-latest'' \<mapsto> createUninitializedBudget 0)))) =
   \<lparr>shouldWait = False, waitTimeMs = NaN, reason = ''Request limit reached''\<rparr>"
  by (simp add: checkRateLimitBudget_def updateRateLimitBudgets_def updateWindow_def
        parseResetTime_def no_headers_def createUninitializedBudget_def rollover_def Let_def
        MAX_SAFE_INTEGER_def)

section \<open>Properties of the usage ledger\<close>

text \<open>
  For non-negative token counts, \<open>updateUsage\<close> never decreases the token totals, the
  request counts, the retry and delay counters or the accrued cost.
\<close>

lemma PRICING_nonneg:
  "PRICING m = Some p \<Longrightarrow>
   0 \<le> inputPrice p \<and> 0 \<le> outputPrice p \<and> 0 \<le> cacheWritePrice p \<and> 0 \<le> cacheReadPrice p"
  by (auto simp: PRICING_def split: if_splits)

lemma updateUsage_other_counters_monotone:
  assumes "0 \<le> p" "0 \<le> c"
    and "case cc of None \<Rightarrow> True | Some n \<Rightarrow> 0 \<le> n"
    and "case cr of None \<Rightarrow> True | Some n \<Rightarrow> 0 \<le> n"
  shows "promptTokens u \<le> promptTokens (updateUsage m p c fromCache cc cr u)"
    and "completionTokens u \<le> completionTokens (updateUsage m p c fromCache cc cr u)"
    and "cachedRequests u \<le> cachedRequests (updateUsage m p c fromCache cc cr u)"
    and "liveRequests u \<le> liveRequests (updateUsage m p c fromCache cc cr u)"
    and "cacheCreationTokens u \<le> cacheCreationTokens (updateUsage m p c fromCache cc cr u)"
    and "cacheReadTokens u \<le> cacheReadTokens (updateUsage m p c fromCache cc cr u)"
    and "rateLimitRetries u \<le> rateLimitRetries (updateUsage m p c fromCache cc cr u)"
    and "preemptiveDelays u \<le> preemptiveDelays (updateUsage m p c fromCache cc cr u)"
    and "cost u \<le> cost (updateUsage m p c fromCache cc cr u)"
proof -
  show "cost u \<le> cost (updateUsage m p c fromCache cc cr u)"
  proof (cases "PRICING m")
    case None
    then show ?thesis by (simp add: updateUsage_def)
  next
    case (Some pr)
    note n = PRICING_nonneg[OF Some]
    have 1: "0 \<le> of_int p * inputPrice pr" "0 \<le> of_int c * outputPrice pr"
      using assms(1,2) n by simp_all
    have 2: "0 \<le> (if truthy cc then of_int (the cc) * cacheWritePrice pr else 0)"
      using assms(3) n by (cases cc) (simp_all add: truthy_def)
    have 3: "0 \<le> (if truthy cr then of_int (the cr) * cacheReadPrice pr else 0)"
      using assms(4) n by (cases cr) (simp_all add: truthy_def)
    have "cost (updateUsage m p c fromCache cc cr u) =
          cost u + (of_int p * inputPrice pr + of_int c * outputPrice pr
            + (if truthy cc then of_int (the cc) * cacheWritePrice pr else 0)
            + (if truthy cr then of_int (the cr) * cacheReadPrice pr else 0))"
      by (simp add: updateUsage_def Some Let_def)
    then show ?thesis using 1 2 3 by linarith
  qed
qed (use assms in \<open>auto simp: updateUsage_def Let_def truthy_def split: option.splits\<close>)

text \<open>
  C4. Evaluation of \<open>updateUsage\<close> on two successive live calls, the first on
  \<open>claude-3-7-sonnet-latest\<close> (1000 prompt and 100 completion tokens), the second on
  \<open>claude-3-5-haiku-latest\<close> (10 and 10 tokens): \<open>costWithoutCaching\<close> is recomputed from the
  ledger's token totals at the rates of the model of the current call only, so it drops from
  0.0045 to 0.001248 dollars.
\<close>

theorem costWithoutCaching_decreases_on_model_switch:
  "(let u1 = updateUsage ''claude-3-7-sonnet-latest'' 1000 100 False (Some 0) (Some 0) initialUsage;
        u2 = updateUsage ''claude-3-5-haiku-latest'' 10 10 False (Some 0) (Some 0) u1
    in costWithoutCaching u1 = 45 / 10000 \<and> costWithoutCaching u2 = 1248 / 1000000 \<and>
       costWithoutCaching u2 < costWithoutCaching u1)"
  by (simp add: Let_def updateUsage_def PRICING_def initialUsage_def truthy_def)


section \<open>Properties of requests\<close>

lemma sleep_fields [simp]:
  "calls (sleep ms w) = calls w" "store (sleep ms w) = store w"
  "usage (sleep ms w) = usage w" "rateLimitBudgets (sleep ms w) = rateLimitBudgets w"
  by (simp_all add: sleep_def)

lemma throttle_fields [simp]:
  "calls (throttle m ei eo w) = calls w"
  "store (throttle m ei eo w) = store w"
  "rateLimitRetries (usage (throttle m ei eo w)) = rateLimitRetries (usage w)"
  by (simp_all add: throttle_def Let_def)



lemma callModel_get_fails:
  assumes "cacheEnabled cfg" "getFails (store w)"
  shows "callModel cfg service key w = (Inl (CacheIOError ''get''), w)"
  using assms by (simp add: callModel_def wrapGenerate_def cacheGet_def)

lemma callModel_set_fails:
  assumes "cacheEnabled cfg" "\<not> getFails (store w)" "rows (store w) key = None"
    "setFails (store w)" "service (calls w) = Inr result"
  shows "callModel cfg service key w = (Inl (CacheIOError ''set''), w\<lparr>calls := calls w + 1\<rparr>)"
  using assms by (simp add: callModel_def wrapGenerate_def cacheGet_def cacheSet_def doGenerate_def)

lemma callModel_live_error:
  assumes "\<not> cacheEnabled cfg \<or> (\<not> getFails (store w) \<and> rows (store w) key = None)"
    "service (calls w) = Inl e"
  shows "callModel cfg service key w = (Inl e, w\<lparr>calls := calls w + 1\<rparr>)"
  using assms by (auto simp: callModel_def wrapGenerate_def cacheGet_def doGenerate_def)

lemma handleRateLimit_exhausted:
  assumes "maxRateLimitRetries cfg \<le> int a"
  shows "handleRateLimit cfg j h a m w =
     (Inl (RateLimitExceeded m a),
      w\<lparr>usage := (usage w)\<lparr>rateLimitRetries := rateLimitRetries (usage w) + 1\<rparr>\<rparr>)"
  using assms by (simp add: handleRateLimit_def)

lemma handleRateLimit_retry:
  assumes "int a < maxRateLimitRetries cfg"
  shows "\<exists>d w'. handleRateLimit cfg j h a m w = (Inr d, w') \<and> calls w' = calls w \<and>
           store w' = store w \<and>
           rateLimitRetries (usage w') = rateLimitRetries (usage w) + 1"
  using assms by (auto simp: handleRateLimit_def Let_def split: option.splits)

declare requestLoop.simps [simp del]

lemma requestLoop_exhaust:
  assumes "n = nat (maxRateLimitRetries cfg) - a"
    and "int a \<le> maxRateLimitRetries cfg"
    and "\<not> cacheEnabled cfg \<or> (\<not> getFails (store w) \<and> rows (store w) key = None)"
    and "\<forall>k \<le> n. \<exists>e. service (calls w + k) = Inl e \<and> isRateLimitError e"
  shows "fst (requestLoop cfg service jitter m key ei eo a w)
           = Inl (RateLimitExceeded m (nat (maxRateLimitRetries cfg))) \<and>
         calls (snd (requestLoop cfg service jitter m key ei eo a w)) = calls w + n + 1 \<and>
         rateLimitRetries (usage (snd (requestLoop cfg service jitter m key ei eo a w)))
           = rateLimitRetries (usage w) + int n + 1"
  using assms
proof (induction n arbitrary: a w)
  case 0
  let ?w1 = "throttle m ei eo w"
  from "0.prems"(4) obtain e where e: "service (calls w) = Inl e" "isRateLimitError e"
    by auto
  have c: "callModel cfg service key ?w1 = (Inl e, ?w1\<lparr>calls := Suc (calls w)\<rparr>)"
    using callModel_live_error[of cfg ?w1 key service e] "0.prems"(3) e by simp
  have a: "maxRateLimitRetries cfg \<le> int a" "a = nat (maxRateLimitRetries cfg)"
    using "0.prems"(1,2) by linarith+
  have step: "requestLoop cfg service jitter m key ei eo a w =
     (Inl (RateLimitExceeded m a),
      (?w1\<lparr>calls := Suc (calls w)\<rparr>)\<lparr>usage := (usage ?w1)\<lparr>rateLimitRetries :=
          rateLimitRetries (usage ?w1) + 1\<rparr>\<rparr>)"
    by (subst requestLoop.simps) (simp add: c e handleRateLimit_exhausted[OF a(1)])
  show ?case unfolding step using a(2) by simp
next
  case (Suc n)
  let ?w1 = "throttle m ei eo w"
  from Suc.prems(4) obtain e where e: "service (calls w) = Inl e" "isRateLimitError e"
    by (metis add.right_neutral le0)
  have c: "callModel cfg service key ?w1 = (Inl e, ?w1\<lparr>calls := Suc (calls w)\<rparr>)"
    using callModel_live_error[of cfg ?w1 key service e] Suc.prems(3) e by simp
  have a: "int a < maxRateLimitRetries cfg" using Suc.prems(1) by linarith
  obtain d w2 where h: "handleRateLimit cfg (jitter a) (errorHeaders e) a m
        (?w1\<lparr>calls := Suc (calls w)\<rparr>) = (Inr d, w2)"
      "calls w2 = calls w + 1" "store w2 = store w"
      "rateLimitRetries (usage w2) = rateLimitRetries (usage w) + 1"
    using handleRateLimit_retry[OF a, of "jitter a" "errorHeaders e" m "?w1\<lparr>calls := Suc (calls w)\<rparr>"]
    by auto
  have step: "requestLoop cfg service jitter m key ei eo a w =
              requestLoop cfg service jitter m key ei eo (a + 1) (sleep d w2)"
    by (subst requestLoop.simps) (simp add: c e h)
  have IH: "fst (requestLoop cfg service jitter m key ei eo (a + 1) (sleep d w2))
           = Inl (RateLimitExceeded m (nat (maxRateLimitRetries cfg))) \<and>
         calls (snd (requestLoop cfg service jitter m key ei eo (a + 1) (sleep d w2)))
           = calls (sleep d w2) + n + 1 \<and>
         rateLimitRetries (usage (snd (requestLoop cfg service jitter m key ei eo (a + 1) (sleep d w2))))
           = rateLimitRetries (usage (sleep d w2)) + int n + 1"
  proof (rule Suc.IH)
    show "n = nat (maxRateLimitRetries cfg) - (a + 1)" using Suc.prems(1) by linarith
    show "int (a + 1) \<le> maxRateLimitRetries cfg" using a by linarith
    show "\<not> cacheEnabled cfg \<or> \<not> getFails (store (sleep d w2)) \<and> rows (store (sleep d w2)) key = None"
      using Suc.prems(3) h(3) by simp
    show "\<forall>k\<le>n. \<exists>e. service (calls (sleep d w2) + k) = Inl e \<and> isRateLimitError e"
    proof (intro allI impI)
      fix k assume "k \<le> n"
      then have "Suc k \<le> Suc n" by simp
      with Suc.prems(4) obtain e' where "service (calls w + Suc k) = Inl e'" "isRateLimitError e'"
        by blast
      then show "\<exists>e. service (calls (sleep d w2) + k) = Inl e \<and> isRateLimitError e"
        using h(2) by auto
    qed
  qed
  show ?case unfolding step using IH h(2,4) by simp
qed

text \<open>
  C7 (amended). For a rate-limit rejection below the retry ceiling, \<open>handleRateLimit\<close> returns,
  in milliseconds, the service's retry hint plus a fixed margin of 500 ms when a
  \<open>retry-after\<close> hint is supplied, and otherwise \<open>min(60000, 2^attempt * 1000 + jitter)\<close> plus
  the same 500 ms margin: the margin is added after the cap of 60 seconds.
\<close>

theorem backoff_delay:
  assumes "int retryAttempt < maxRateLimitRetries cfg"
  shows "(\<forall>h hint. headers = Some h \<and> retry_after h = Some hint \<longrightarrow>
            fst (handleRateLimit cfg jitter headers retryAttempt modelName w)
              = Inr (of_int hint * 1000 + 500)) \<and>
         (headers = None \<or> (\<exists>h. headers = Some h \<and> retry_after h = None) \<longrightarrow>
            fst (handleRateLimit cfg jitter headers retryAttempt modelName w)
              = Inr (min 60000 (2 ^ retryAttempt * 1000 + jitter) + 500)) "
  using assms
  by (auto simp: handleRateLimit_def Let_def min_def field_simps split: option.splits)

text \<open>With a hint of 7 seconds the delay is 7500 ms; at attempt 2 with 250 ms of jitter and no
  hint it is 4750 ms.\<close>

theorem backoff_delay_witness:
  "fst (handleRateLimit \<lparr>maxRateLimitRetries = 5, cacheEnabled = True\<rparr> 250
         (Some (no_headers\<lparr>retry_after := Some 7\<rparr>)) 2 ''claude-3-5-haiku-latest''
         (newWorld (emptyStore :: unit cache_store) 0)) = Inr 7500 \<and>
   fst (handleRateLimit \<lparr>maxRateLimitRetries = 5, cacheEnabled = True\<rparr> 250
         None 2 ''claude-3-5-haiku-latest''
         (newWorld (emptyStore :: unit cache_store) 0)) = Inr 4750"
  using backoff_delay[where cfg="\<lparr>maxRateLimitRetries = 5, cacheEnabled = True\<rparr>"
      and retryAttempt=2 and jitter=250 and headers="Some (no_headers\<lparr>retry_after := Some 7\<rparr>)"
      and modelName="''claude-3-5-haiku-latest''" and w="newWorld (emptyStore :: unit cache_store) 0"]
    backoff_delay[where cfg="\<lparr>maxRateLimitRetries = 5, cacheEnabled = True\<rparr>"
      and retryAttempt=2 and jitter=250 and headers=None
      and modelName="''claude-3-5-haiku-latest''" and w="newWorld (emptyStore :: unit cache_store) 0"]
  by (simp add: no_headers_def)

text \<open>
  C7 as stated fails: at attempt 0 with 900 ms of jitter and no hint the delay is 2400 ms,
  more than \<open>2^0\<close> seconds plus one second of jitter.
\<close>

theorem backoff_exceeds_claimed_bound:
  "\<not> (case fst (handleRateLimit \<lparr>maxRateLimitRetries = 5, cacheEnabled = True\<rparr> 900
                    None 0 ''claude-3-5-haiku-latest''
                    (newWorld (emptyStore :: unit cache_store) 0)) of
          Inr delay \<Rightarrow> delay \<le> min 60000 (2 ^ 0 * 1000 + 1000)
        | Inl e \<Rightarrow> True)"
  by (simp add: handleRateLimit_def Let_def)

lemma recordSuccess_fields [simp]:
  "calls (recordSuccess m r w) = calls w"
  "store (recordSuccess m r w) = store w"
  "rateLimitRetries (usage (recordSuccess m r w)) = rateLimitRetries (usage w)"
  by (simp_all add: recordSuccess_def updateUsage_def Let_def split: option.splits)


text \<open>
  C6. When every call of a request is rejected with a rate-limit error, the request ends
  with the error that carries the model name and the attempt count \<open>maxRateLimitRetries\<close>, and
  it has made exactly \<open>maxRateLimitRetries + 1\<close> calls: the rejection that exceeds the
  maximum ends the request, and no further call is made.
\<close>

theorem retry_ceiling:
  assumes "0 \<le> maxRateLimitRetries cfg"
    and "\<not> cacheEnabled cfg \<or> (\<not> getFails (store w) \<and> rows (store w) key = None)"
    and "\<forall>k \<le> nat (maxRateLimitRetries cfg). \<exists>e. service (calls w + k) = Inl e \<and> isRateLimitError e"
  shows "fst (generateObject cfg service jitter key opts w)
           = Inl (RateLimitExceeded (modelNameOf opts) (nat (maxRateLimitRetries cfg))) \<and>
         calls (snd (generateObject cfg service jitter key opts w))
           = calls w + nat (maxRateLimitRetries cfg) + 1 \<and>
         rateLimitRetries (usage (snd (generateObject cfg service jitter key opts w)))
           = rateLimitRetries (usage w) + maxRateLimitRetries cfg + 1"
  using requestLoop_exhaust[of "nat (maxRateLimitRetries cfg)" cfg 0 w key service jitter
      "modelNameOf opts" "estimatedInputOf opts" "estimatedOutputOf opts"] assms
  by (simp add: generateObject_def)

lemma sublist_429: "sublist ''429'' (''429'' @ s)"
  unfolding sublist_def by (rule exI[of _ "[]"], rule exI[of _ s]) simp

text \<open>With the default of 5 retries and a service that always answers 429, the request makes
  6 calls and fails with "Rate limit exceeded for claude-3-5-haiku-latest after 5 retries".\<close>

theorem retry_ceiling_witness:
  "fst (generateObject (newConfig None False)
         (\<lambda>k. Inl (RetryError_APICallError ''429 Too Many Requests'' None)) (\<lambda>a. 0) ''{}''
         \<lparr>prompt = None, messages = None, useSmart = False, estimatedInputTokens = Some 1200,
          estimatedOutputTokens = Some 400\<rparr>
         (newWorld (emptyStore :: unit cache_store) 0))
     = Inl (RateLimitExceeded ''claude-3-5-haiku-latest'' 5) \<and>
   calls (snd (generateObject (newConfig None False)
         (\<lambda>k. Inl (RetryError_APICallError ''429 Too Many Requests'' None)) (\<lambda>a. 0) ''{}''
         \<lparr>prompt = None, messages = None, useSmart = False, estimatedInputTokens = Some 1200,
          estimatedOutputTokens = Some 400\<rparr>
         (newWorld (emptyStore :: unit cache_store) 0))) = 6"
proof -
  have s: "sublist ''429'' ''429 Too Many Requests''"
    using sublist_429[of "'' Too Many Requests''"] by simp
  show ?thesis
    using retry_ceiling[where cfg="newConfig None False"
      and service="\<lambda>k. Inl (RetryError_APICallError ''429 Too Many Requests'' None)"
      and jitter="\<lambda>a. 0" and key="''{}''"
      and opts="\<lparr>prompt = None, messages = None, useSmart = False,
          estimatedInputTokens = Some 1200, estimatedOutputTokens = Some 400\<rparr>"
      and w="newWorld (emptyStore :: unit cache_store) 0"] s
    by (simp add: newConfig_def MAX_RATE_LIMIT_RETRIES_def newWorld_def modelNameOf_def)
qed


lemma requestLoop_get_fails:
  assumes "cacheEnabled cfg" "getFails (store w)"
  shows "requestLoop cfg service jitter m key ei eo a w =
           (Inl (CacheIOError ''get''), throttle m ei eo w)"
  using callModel_get_fails[of cfg "throttle m ei eo w" service key] assms
  by (subst requestLoop.simps) simp

lemma requestLoop_set_fails:
  assumes "cacheEnabled cfg" "\<not> getFails (store w)" "rows (store w) key = None"
    "setFails (store w)" "service (calls w) = Inr result"
  shows "requestLoop cfg service jitter m key ei eo a w =
           (Inl (CacheIOError ''set''), (throttle m ei eo w)\<lparr>calls := Suc (calls w)\<rparr>)"
  using callModel_set_fails[of cfg "throttle m ei eo w" key service result] assms
  by (subst requestLoop.simps) simp

text \<open>
  C3 (amended). An I/O failure of the cache store is not caught. A failing read ends the
  request with the store's error after the throttle step and before any live call; a failing
  write after a successful live call ends the request with the store's error, and the live
  result is dropped. Neither failure is retried.
\<close>

theorem cache_io_failure_propagates:
  assumes "cacheEnabled cfg"
  shows "(getFails (store w) \<longrightarrow>
            generateObject cfg service jitter key opts w =
              (Inl (CacheIOError ''get''),
               throttle (modelNameOf opts) (estimatedInputOf opts) (estimatedOutputOf opts) w)) \<and>
         (\<not> getFails (store w) \<and> rows (store w) key = None \<and> setFails (store w) \<and>
          service (calls w) = Inr result \<longrightarrow>
            generateObject cfg service jitter key opts w =
              (Inl (CacheIOError ''set''),
               (throttle (modelNameOf opts) (estimatedInputOf opts) (estimatedOutputOf opts) w)
                 \<lparr>calls := Suc (calls w)\<rparr>))"
  using assms requestLoop_get_fails[of cfg w service jitter "modelNameOf opts" key
      "estimatedInputOf opts" "estimatedOutputOf opts" 0]
    requestLoop_set_fails[of cfg w key service result jitter "modelNameOf opts"
      "estimatedInputOf opts" "estimatedOutputOf opts" 0]
  by (simp add: generateObject_def)




text \<open>A store whose reads fail: the request fails and no live call is made.\<close>

theorem cache_io_failure_propagates_witness:
  "fst (generateObject (newConfig None True) answeringService noJitter ''k1'' exampleOptions
      (newWorld (emptyStore\<lparr>getFails := True\<rparr>) 1000)) = Inl (CacheIOError ''get'') \<and>
   calls (snd (generateObject (newConfig None True) answeringService noJitter ''k1''
      exampleOptions (newWorld (emptyStore\<lparr>getFails := True\<rparr>) 1000))) = 0"
  using cache_io_failure_propagates[where cfg="newConfig None True" and service=answeringService
      and jitter=noJitter and key="''k1''" and opts=exampleOptions
      and w="newWorld (emptyStore\<lparr>getFails := True\<rparr>) 1000"]
  by (simp add: newConfig_def newWorld_def emptyStore_def)

text \<open>
  C3 as stated fails: with a store whose writes fail, the live call succeeds and the request
  still ends with the store's error instead of the live result.
\<close>

theorem cache_write_failure_loses_live_result:
  "answeringService 0 = Inr exampleResponse \<and>
   fst (generateObject (newConfig None True) answeringService noJitter ''k1'' exampleOptions
      (newWorld (emptyStore\<lparr>setFails := True\<rparr>) 1000)) \<noteq> Inr (object exampleResponse) \<and>
   fst (generateObject (newConfig None True) answeringService noJitter ''k1'' exampleOptions
      (newWorld (emptyStore\<lparr>setFails := True\<rparr>) 1000)) = Inl (CacheIOError ''set'')"
  using requestLoop_set_fails[where cfg="newConfig None True" and service=answeringService
      and jitter=noJitter and key="''k1''" and w="newWorld (emptyStore\<lparr>setFails := True\<rparr>) 1000"
      and result=exampleResponse and m="modelNameOf exampleOptions"
      and ei="estimatedInputOf exampleOptions" and eo="estimatedOutputOf exampleOptions" and a=0]
  by (simp add: newConfig_def newWorld_def emptyStore_def answeringService_def generateObject_def)

section \<open>Properties of the dispatcher\<close>

lemma inFlightTasks_workers [simp]:
  "inFlightTasks (s\<lparr>workers := ws\<rparr>) = map the (filter (\<lambda>w. w \<noteq> None) ws)"
  "inFlightTasks (s\<lparr>queue := q\<rparr>) = inFlightTasks s"
  "inFlightTasks (s\<lparr>inProgress := p\<rparr>) = inFlightTasks s"
  "inFlightTasks (s\<lparr>completed := c\<rparr>) = inFlightTasks s"
  "inFlightTasks (s\<lparr>results := r\<rparr>) = inFlightTasks s"
  "inFlightTasks (s\<lparr>errorLog := l\<rparr>) = inFlightTasks s"
  "inFlightTasks (s\<lparr>exited := e\<rparr>) = inFlightTasks s"
  by (simp_all add: inFlightTasks_def)

lemma set_tasks: "set (map the (filter (\<lambda>w. w \<noteq> None) ws)) = {t. Some t \<in> set ws}"
  by (induction ws) auto

lemma mset_tasks_update:
  assumes "i < length ws" "ws ! i = Some ep"
  shows "mset (map the (filter (\<lambda>w. w \<noteq> None) (ws[i := x]))) + {#ep#} =
         mset (map the (filter (\<lambda>w. w \<noteq> None) ws)) + (case x of None \<Rightarrow> {#} | Some q \<Rightarrow> {#q#})"
proof -
  have 1: "ws = take i ws @ Some ep # drop (Suc i) ws"
    using assms by (metis id_take_nth_drop)
  have 2: "ws[i := x] = take i ws @ x # drop (Suc i) ws"
    using assms(1) by (rule upd_conv_take_nth_drop)
  have "mset (map the (filter (\<lambda>w. w \<noteq> None) (take i ws @ x # drop (Suc i) ws))) + {#ep#} =
        mset (map the (filter (\<lambda>w. w \<noteq> None) (take i ws @ Some ep # drop (Suc i) ws)))
          + (case x of None \<Rightarrow> {#} | Some q \<Rightarrow> {#q#})"
    by (cases x) simp_all
  then show ?thesis using 1 2 by metis
qed

lemma tasks_update_keeps:
  assumes "Some t \<in> set ws" "ws ! i = Some ep" "t \<noteq> ep"
  shows "Some t \<in> set (ws[i := x])"
proof -
  from assms(1) obtain j where j: "j < length ws" "ws ! j = Some t"
    by (auto simp: in_set_conv_nth)
  with assms(2,3) have "j \<noteq> i" by auto
  with j show ?thesis by (metis length_list_update nth_list_update_neq nth_mem)
qed

lemma spawn_fold:
  "j \<le> length eps \<Longrightarrow>
   fold (\<lambda>i s. claim eps i (s\<lparr>workers := workers s @ [None]\<rparr>)) [0 ..< j]
     (\<lparr>queue = eps, workers = [], inProgress = {}, completed = 0, results = [],
       errorLog = [], exited = False\<rparr> :: 'r dispatcher)
   = \<lparr>queue = drop j eps, workers = map Some (take j eps),
      inProgress = indexOf eps ` set (take j eps), completed = 0, results = [],
      errorLog = [], exited = False\<rparr>"
proof (induction j)
  case 0
  then show ?case by simp
next
  case (Suc j)
  then have j: "j < length eps" by simp
  have d: "drop j eps = eps ! j # drop (Suc j) eps"
    using j by (simp add: Cons_nth_drop_Suc)
  have t: "take (Suc j) eps = take j eps @ [eps ! j]"
    using j by (simp add: take_Suc_conv_app_nth)
  have u: "(map Some (take j eps) @ [None])[j := Some (eps ! j)] = map Some (take j eps) @ [Some (eps ! j)]"
    using j by (simp add: list_update_append)
  show ?case
    using Suc.IH j by (simp add: claim_def d t u)
qed

lemma start_state:
  "(start concurrency eps :: 'r dispatcher) =
     \<lparr>queue = drop (nat (min concurrency (int (length eps)))) eps,
      workers = map Some (take (nat (min concurrency (int (length eps)))) eps),
      inProgress = indexOf eps ` set (take (nat (min concurrency (int (length eps)))) eps),
      completed = 0, results = [], errorLog = [], exited = False\<rparr>"
  unfolding start_def by (rule spawn_fold) simp

lemma inv_start: "dispatcher_inv body eps concurrency (start concurrency eps)"
proof -
  let ?k = "nat (min concurrency (int (length eps)))"
  have "mset (drop ?k eps) + mset (take ?k eps) + mset [] = mset eps"
    by (metis add.right_neutral append_take_drop_id mset.simps(1) mset_append union_commute)
  then show ?thesis
    unfolding dispatcher_inv_def start_state
    by (auto simp: inFlightTasks_def filter_map comp_def returnedValues_def intro!: exI[of _ "[]"])
qed

lemma returnedValues_snoc:
  "returnedValues body (settled @ [ep]) =
     returnedValues body settled @ (case fst (body ep) of Returned r \<Rightarrow> [r] | _ \<Rightarrow> [])"
  by (simp add: returnedValues_def)

lemma inv_claim_after:
  assumes inv: "dispatcher_inv body eps C s"
    and i: "i < length (workers s)" "workers s ! i = Some ep"
    and R: "R = results s @ (case fst (body ep) of Returned r \<Rightarrow> [r] | _ \<Rightarrow> [])"
  shows "dispatcher_inv body eps C
           (claim eps i (s\<lparr>errorLog := L, results := R,
                            inProgress := inProgress s - {indexOf eps ep},
                            completed := completed s + 1\<rparr>))"
proof -
  from inv obtain settled where
    ex: "\<not> exited s" and
    len: "length (workers s) = nat (min C (int (length eps)))" and
    full: "queue s \<noteq> [] \<longrightarrow> None \<notin> set (workers s)" and
    prog: "inProgress s \<subseteq> indexOf eps ` set (inFlightTasks s)" and
    ms: "mset (queue s) + mset (inFlightTasks s) + mset settled = mset eps" and
    cnt: "completed s = length settled" and
    res: "results s = returnedValues body settled"
    unfolding dispatcher_inv_def by blast
  let ?ws = "workers s"
  have keep: "inProgress s - {indexOf eps ep}
      \<subseteq> indexOf eps ` set (map the (filter (\<lambda>w. w \<noteq> None) (?ws[i := x])))" for x
    unfolding set_tasks
  proof
    fix n assume n: "n \<in> inProgress s - {indexOf eps ep}"
    with prog obtain t where t: "Some t \<in> set ?ws" "n = indexOf eps t"
      by (auto simp: inFlightTasks_def set_tasks)
    with n have "t \<noteq> ep" by auto
    with t(1) i(2) have "Some t \<in> set (?ws[i := x])" by (rule tasks_update_keeps)
    with t(2) show "n \<in> indexOf eps ` {t. Some t \<in> set (?ws[i := x])}" by blast
  qed
  let ?s1 = "s\<lparr>errorLog := L, results := R, inProgress := inProgress s - {indexOf eps ep},
               completed := completed s + 1\<rparr>"
  have R': "R = returnedValues body (settled @ [ep])"
    using R res by (simp add: returnedValues_snoc)
  show ?thesis
  proof (cases "queue s")
    case Nil
    let ?s' = "claim eps i ?s1"
    have f: "exited ?s' = exited s" "workers ?s' = ?ws[i := None]" "queue ?s' = []"
      "inProgress ?s' = inProgress s - {indexOf eps ep}"
      "inFlightTasks ?s' = map the (filter (\<lambda>w. w \<noteq> None) (?ws[i := None]))"
      "completed ?s' = length (settled @ [ep])" "results ?s' = R"
      using Nil cnt by (simp_all add: claim_def)
    have m: "mset (map the (filter (\<lambda>w. w \<noteq> None) (?ws[i := None]))) + {#ep#} = mset (inFlightTasks s)"
      using mset_tasks_update[OF i, of None] by (simp add: inFlightTasks_def)
    have e: "mset [] + mset (map the (filter (\<lambda>w. w \<noteq> None) (?ws[i := None])))
            + mset (settled @ [ep]) = mset eps"
    proof -
      define A where "A = mset (map the (filter (\<lambda>w. w \<noteq> None) (?ws[i := None])))"
      have "mset (queue s) + (A + {#ep#}) + mset settled = mset eps"
        using ms m unfolding A_def by simp
      then have "mset [] + A + (mset settled + {#ep#}) = mset eps"
        using Nil by (simp add: ac_simps)
      then show ?thesis unfolding A_def by simp
    qed
    show ?thesis
      unfolding dispatcher_inv_def f
      using ex len keep[of None] e R' by (intro conjI exI[of _ "settled @ [ep]"]) simp_all
  next
    case (Cons q rest)
    let ?s' = "claim eps i ?s1"
    have f: "exited ?s' = exited s" "workers ?s' = ?ws[i := Some q]" "queue ?s' = rest"
      "inProgress ?s' = insert (indexOf eps q) (inProgress s - {indexOf eps ep})"
      "inFlightTasks ?s' = map the (filter (\<lambda>w. w \<noteq> None) (?ws[i := Some q]))"
      "completed ?s' = length (settled @ [ep])" "results ?s' = R"
      using Cons cnt by (simp_all add: claim_def)
    have m: "mset (map the (filter (\<lambda>w. w \<noteq> None) (?ws[i := Some q]))) + {#ep#}
               = mset (inFlightTasks s) + {#q#}"
      using mset_tasks_update[OF i, of "Some q"] by (simp add: inFlightTasks_def)
    have e: "mset rest + mset (map the (filter (\<lambda>w. w \<noteq> None) (?ws[i := Some q])))
            + mset (settled @ [ep]) = mset eps"
    proof -
      define A where "A = mset (map the (filter (\<lambda>w. w \<noteq> None) (?ws[i := Some q])))"
      define B where "B = mset (inFlightTasks s)"
      have 1: "A + {#ep#} = B + {#q#}" using m unfolding A_def B_def .
      have 2: "(mset rest + {#q#}) + B + mset settled = mset eps"
        using ms Cons unfolding B_def by simp
      have "mset rest + (B + {#q#}) + mset settled = mset eps"
        using 2 by (simp add: ac_simps)
      then have "mset rest + (A + {#ep#}) + mset settled = mset eps"
        using 1 by simp
      then have "mset rest + A + (mset settled + {#ep#}) = mset eps"
        by (simp add: ac_simps)
      then show ?thesis unfolding A_def by simp
    qed
    have n: "None \<notin> set (?ws[i := Some q])"
      using full Cons set_update_subset_insert[of ?ws i "Some q"] by auto
    have q: "indexOf eps q \<in> indexOf eps ` set (map the (filter (\<lambda>w. w \<noteq> None) (?ws[i := Some q])))"
      unfolding set_tasks using i(1) by (simp add: set_update_memI)
    show ?thesis
      unfolding dispatcher_inv_def f
      using ex len keep[of "Some q"] e R' n q by (intro conjI exI[of _ "settled @ [ep]"]) simp_all
  qed
qed

lemma in_flight_in_endpoints:
  assumes inv: "dispatcher_inv body eps C s"
    and i: "i < length (workers s)" "workers s ! i = Some ep"
  shows "ep \<in> set eps"
proof -
  from inv obtain settled where
    ms: "mset (queue s) + mset (inFlightTasks s) + mset settled = mset eps"
    unfolding dispatcher_inv_def by blast
  have "Some ep \<in> set (workers s)" using i by (metis nth_mem)
  then have "ep \<in> set (inFlightTasks s)"
    unfolding inFlightTasks_def set_tasks by simp
  then have "ep \<in># mset (inFlightTasks s)"
    by simp
  then have "ep \<in># mset eps"
    using ms by (metis union_iff)
  then show ?thesis by simp
qed

lemma resume_idle:
  "exited s \<or> \<not> i < length (workers s) \<or> workers s ! i = None \<Longrightarrow> resume body eps i s = s"
  by (auto simp: resume_def)

lemma resume_settled:
  assumes "\<not> exited s" "i < length (workers s)" "workers s ! i = Some ep"
    and "fst (body ep) \<noteq> Exited"
  shows "resume body eps i s =
     claim eps i (s\<lparr>errorLog := errorLog s @ snd (body ep) @
                        (case fst (body ep) of Thrown e \<Rightarrow> [ErrorEnhancing ''endpoint'' ep e]
                                             | _ \<Rightarrow> []),
                    results := results s @ (case fst (body ep) of Returned r \<Rightarrow> [r] | _ \<Rightarrow> []),
                    inProgress := inProgress s - {indexOf eps ep},
                    completed := completed s + 1\<rparr>)"
  using assms
  by (cases "body ep"; cases "fst (body ep)") (simp_all add: resume_def Let_def)

lemma resume_exit:
  assumes "\<not> exited s" "i < length (workers s)" "workers s ! i = Some ep"
    and "fst (body ep) = Exited"
  shows "resume body eps i s = s\<lparr>errorLog := errorLog s @ snd (body ep), exited := True\<rparr>"
  using assms by (cases "body ep") (simp add: resume_def Let_def)

lemma completed_claim [simp]: "completed (claim eps i s) = completed s"
  by (simp add: claim_def split: list.splits)

lemma inv_resume:
  assumes inv: "dispatcher_inv body eps C s"
    and noexit: "\<forall>ep \<in> set eps. fst (body ep) \<noteq> Exited"
  shows "dispatcher_inv body eps C (resume body eps i s)"
proof (cases "i < length (workers s) \<and> workers s ! i \<noteq> None")
  case False
  then show ?thesis using inv resume_idle[of s i body eps] by auto
next
  case True
  then obtain ep where i: "i < length (workers s)" "workers s ! i = Some ep" by auto
  have ex: "\<not> exited s" using inv by (simp add: dispatcher_inv_def)
  have "ep \<in> set eps" using inv i by (rule in_flight_in_endpoints)
  with noexit have ne: "fst (body ep) \<noteq> Exited" by blast
  show ?thesis
    unfolding resume_settled[where body=body, OF ex i ne]
    using inv i by (rule inv_claim_after) simp
qed

lemma run_Nil [simp]: "run body eps [] s = s"
  by (simp add: run_def)

lemma run_Cons [simp]: "run body eps (i # sched) s = run body eps sched (resume body eps i s)"
  by (simp add: run_def)

lemma inv_run:
  assumes "dispatcher_inv body eps C s" and "\<forall>ep \<in> set eps. fst (body ep) \<noteq> Exited"
  shows "dispatcher_inv body eps C (run body eps sched s)"
  using assms by (induction sched arbitrary: s) (simp_all add: inv_resume)

lemma inv_inFlight_bound:
  assumes "dispatcher_inv body eps C s"
  shows "inFlight s \<le> nat C" "finite (inProgress s)" "card (inProgress s) \<le> inFlight s"
proof -
  from assms have len: "length (workers s) = nat (min C (int (length eps)))"
    and prog: "inProgress s \<subseteq> indexOf eps ` set (inFlightTasks s)"
    unfolding dispatcher_inv_def by blast+
  have "inFlight s \<le> length (workers s)"
    by (simp add: inFlight_def inFlightTasks_def)
  then show "inFlight s \<le> nat C" using len by linarith
  show "finite (inProgress s)" using prog by (rule finite_subset) simp
  have "card (inProgress s) \<le> card (indexOf eps ` set (inFlightTasks s))"
    using prog by (intro card_mono) simp_all
  also have "\<dots> \<le> card (set (inFlightTasks s))" by (rule card_image_le) simp
  also have "\<dots> \<le> inFlight s" unfolding inFlight_def by (rule card_length)
  finally show "card (inProgress s) \<le> inFlight s" .
qed

lemma inv_finished_iff:
  assumes inv: "dispatcher_inv body eps C s" and C: "1 \<le> C"
  shows "finished s \<longleftrightarrow> completed s = length eps"
    and "completed s \<le> length eps"
    and "finished s \<longrightarrow> queue s = [] \<and> inFlightTasks s = []"
proof -
  from inv obtain settled where
    ex: "\<not> exited s" and
    len: "length (workers s) = nat (min C (int (length eps)))" and
    full: "queue s \<noteq> [] \<longrightarrow> None \<notin> set (workers s)" and
    ms: "mset (queue s) + mset (inFlightTasks s) + mset settled = mset eps" and
    cnt: "completed s = length settled"
    unfolding dispatcher_inv_def by blast
  have sz: "length (queue s) + length (inFlightTasks s) + length settled = length eps"
    using arg_cong[OF ms, of size] by simp
  show "completed s \<le> length eps" using sz cnt by simp
  have idle: "list_all (\<lambda>w. w = None) (workers s) \<longleftrightarrow> inFlightTasks s = []"
    by (auto simp: inFlightTasks_def list_all_iff filter_empty_conv)
  have q: "queue s = []" if "list_all (\<lambda>w. w = None) (workers s)"
  proof (rule ccontr)
    assume ne: "queue s \<noteq> []"
    with full have "None \<notin> set (workers s)" by simp
    with that have "workers s = []" by (cases "workers s") (auto simp: list_all_iff)
    with len C have "length eps = 0" by (auto simp: min_def split: if_splits)
    with sz ne show False by simp
  qed
  show "finished s \<longrightarrow> queue s = [] \<and> inFlightTasks s = []"
    using q idle by (simp add: finished_def)
  show "finished s \<longleftrightarrow> completed s = length eps"
  proof
    assume "finished s"
    then have "queue s = []" "inFlightTasks s = []" using q idle by (simp_all add: finished_def)
    with sz cnt show "completed s = length eps" by simp
  next
    assume "completed s = length eps"
    with sz cnt have "inFlightTasks s = []" by simp
    with idle ex show "finished s" by (simp add: finished_def)
  qed
qed

lemma inv_progress:
  assumes inv: "dispatcher_inv body eps C s"
    and noexit: "\<forall>ep \<in> set eps. fst (body ep) \<noteq> Exited"
    and nf: "\<not> finished s"
  shows "\<exists>i. completed (resume body eps i s) = completed s + 1"
proof -
  have ex: "\<not> exited s" using inv by (simp add: dispatcher_inv_def)
  with nf have "\<not> list_all (\<lambda>w. w = None) (workers s)" by (simp add: finished_def)
  then obtain i ep where i: "i < length (workers s)" "workers s ! i = Some ep"
    by (auto simp: list_all_length)
  have "ep \<in> set eps" using inv i by (rule in_flight_in_endpoints)
  with noexit have ne: "fst (body ep) \<noteq> Exited" by blast
  have "completed (resume body eps i s) = completed s + 1"
    unfolding resume_settled[where body=body, OF ex i ne] by simp
  then show ?thesis ..
qed


text \<open>
  The number of workers never changes, whatever the tasks do, so at no moment of any run
  are more than \<open>concurrency\<close> tasks in flight.
\<close>

lemma length_workers_claim [simp]: "length (workers (claim eps i s)) = length (workers s)"
  by (simp add: claim_def split: list.splits)

lemma length_workers_resume [simp]:
  "length (workers (resume body eps i s)) = length (workers s)"
  by (simp add: resume_def Let_def split: option.splits prod.splits outcome.splits)

lemma length_workers_run [simp]:
  "length (workers (run body eps sched s)) = length (workers s)"
  by (induction sched arbitrary: s) simp_all

lemma inFlight_le_workers: "inFlight s \<le> length (workers s)"
  by (simp add: inFlight_def inFlightTasks_def)

lemma inFlight_bounded:
  "inFlight (run body endpoints schedule (start concurrency endpoints)) \<le> nat concurrency"
proof -
  let ?s = "run body endpoints schedule (start concurrency endpoints)"
  have "inFlight ?s \<le> length (workers ?s)"
    by (rule inFlight_le_workers)
  also have "\<dots> = nat (min concurrency (int (length endpoints)))"
    by (simp add: start_state)
  also have "\<dots> \<le> nat concurrency" by linarith
  finally show ?thesis .
qed

text \<open>
  When the concurrency is at least 1 and no task ends the process, in every state a run
  can reach: the queued, in-flight and settled tasks together are exactly the endpoints, each
  once, so every task is claimed by one worker and settled at most once; \<open>completed\<close> counts
  the settled tasks; \<open>Promise.all\<close> has resolved exactly when \<open>completed\<close> is the number of
  endpoints; and while it has not resolved, some worker can settle.
\<close>

lemma dispatch_settles_each_task_once:
  assumes "1 \<le> concurrency"
    and "\<forall>ep \<in> set endpoints. fst (body ep) \<noteq> Exited"
  shows "let s = run body endpoints schedule (start concurrency endpoints)
         in inFlight s \<le> nat concurrency \<and>
            card (inProgress s) \<le> nat concurrency \<and>
            (\<exists>settled. mset (queue s) + mset (inFlightTasks s) + mset settled = mset endpoints \<and>
                       completed s = length settled \<and>
                       results s = returnedValues body settled) \<and>
            (finished s \<longleftrightarrow> completed s = length endpoints) \<and>
            (finished s \<longrightarrow> queue s = [] \<and> inFlightTasks s = []) \<and>
            (\<not> finished s \<longrightarrow>
               (\<exists>i. completed (resume body endpoints i s) = completed s + 1))"
proof -
  define s where "s = run body endpoints schedule (start concurrency endpoints)"
  have inv: "dispatcher_inv body endpoints concurrency s"
    unfolding s_def using inv_start assms(2) by (rule inv_run)
  have 1: "inFlight s \<le> nat concurrency" "card (inProgress s) \<le> nat concurrency"
    using inv_inFlight_bound[OF inv] by linarith+
  have 2: "\<exists>settled. mset (queue s) + mset (inFlightTasks s) + mset settled = mset endpoints \<and>
                     completed s = length settled \<and> results s = returnedValues body settled"
    using inv unfolding dispatcher_inv_def by blast
  note 3 = inv_finished_iff(1,3)[OF inv assms(1)]
  have 4: "\<not> finished s \<longrightarrow> (\<exists>i. completed (resume body endpoints i s) = completed s + 1)"
    using inv_progress[OF inv assms(2)] by blast
  show ?thesis
    unfolding Let_def s_def[symmetric] using 1 2 3 4 by blast
qed


lemma enrich_exits:
  assumes "descriptionRequest (reqs ep) = Inl e"
  shows "enrich reqs ep = (Exited, [ErrorEnhancing ''endpoint'' ep e])"
  using assms by (simp add: enrich_def enhanceEndpoint_def)

lemma enrich_returns:
  assumes "descriptionRequest (reqs ep) = Inr info"
  shows "enrich reqs ep =
     (Returned \<lparr>eeEndpoint = ep, eeInfo = info,
                eeParameters = fst (enhanceParameters ep (parametersRequest (reqs ep))),
                eeResponses = fst (enhanceResponses ep (responsesRequest (reqs ep)))\<rparr>,
      snd (enhanceParameters ep (parametersRequest (reqs ep))) @
      snd (enhanceResponses ep (responsesRequest (reqs ep))))"
  using assms by (simp add: enrich_def enhanceEndpoint_def split: prod.splits)

lemma run_exited: "exited s \<Longrightarrow> run body eps sched s = s"
  by (induction sched) (simp_all add: resume_idle)


text \<open>
  The failure paths of the enricher. A failing parameter or response request is caught
  inside the task, logged, and replaced by the fallback values; \<open>enhanceEndpoint\<close> never
  throws; a failure thrown to \<open>processQueue\<close> would be logged and counted, and the worker
  would go on with the queue.
\<close>

lemma enhanceParameters_failure:
  "epParameters ep \<noteq> [] \<Longrightarrow>
   enhanceParameters ep (Inl e) =
     (map (\<lambda>p. \<lparr>epParam = p, epEnhancedDescription = paramDescription p,
                  epImportance = (if paramRequired p then ''critical'' else ''optional'')\<rparr>)
          (epParameters ep),
      [ErrorEnhancing ''parameters'' ep e])"
  by (simp add: enhanceParameters_def fallbackParam_def)

lemma enhanceResponses_failure:
  "epResponses ep = [(statusCode, description)] \<Longrightarrow>
   enhanceResponses ep (Inl e) =
     ([(statusCode, description,
        if prefix ''4'' statusCode \<or> prefix ''5'' statusCode
        then Some [''Verify your request parameters'', ''Check authentication''] else None)],
      [ErrorEnhancing ''responses'' ep e])"
  by (simp add: enhanceResponses_def)

lemma enhanceEndpoint_never_throws: "fst (enhanceEndpoint ep req) \<noteq> Thrown e"
  by (simp add: enhanceEndpoint_def split: sum.splits prod.splits)

lemma thrown_failure_is_recorded:
  assumes "\<not> exited s" "i < length (workers s)" "workers s ! i = Some ep"
    and "body ep = (Thrown e, lg)"
  shows "\<not> exited (resume body eps i s) \<and>
         completed (resume body eps i s) = completed s + 1 \<and>
         results (resume body eps i s) = results s \<and>
         errorLog (resume body eps i s) = errorLog s @ lg @ [ErrorEnhancing ''endpoint'' ep e] \<and>
         workers (resume body eps i s) =
           (workers s)[i := (case queue s of [] \<Rightarrow> None | next # rest \<Rightarrow> Some next)] \<and>
         queue (resume body eps i s) = tl (queue s)"
  using assms by (simp add: resume_def Let_def claim_def split: list.splits)

text \<open>
  A failing description request ends the process: nothing is recorded for the task, the
  tasks in flight and in the queue stay as they are, and nothing happens afterwards.
\<close>

lemma description_failure_ends_process:
  assumes "\<not> exited s" "i < length (workers s)" "workers s ! i = Some ep"
    and "descriptionRequest (reqs ep) = Inl e"
  shows "resume (enrich reqs) eps i s =
           s\<lparr>errorLog := errorLog s @ [ErrorEnhancing ''endpoint'' ep e], exited := True\<rparr>"
    and "run (enrich reqs) eps later (resume (enrich reqs) eps i s) = resume (enrich reqs) eps i s"
proof -
  show r: "resume (enrich reqs) eps i s =
           s\<lparr>errorLog := errorLog s @ [ErrorEnhancing ''endpoint'' ep e], exited := True\<rparr>"
    using assms resume_exit[where body="enrich reqs" and s=s and i=i and ep=ep and eps=eps]
    by (simp add: enrich_exits)
  show "run (enrich reqs) eps later (resume (enrich reqs) eps i s) = resume (enrich reqs) eps i s"
    unfolding r by (simp add: run_exited)
qed

lemmas eval_defs = resume_def claim_def Let_def enrich_def enhanceEndpoint_def allSucceed_def
  descriptionFailsFor_def exampleEndpoint_def indexOf_def enhanceParameters_def
  enhanceResponses_def


text \<open>Five endpoints at concurrency 2, all requests succeeding.\<close>

lemma dispatch_five_at_two:
  "completed (run (enrich allSucceed) (map exampleEndpoint [''1'', ''2'', ''3'', ''4'', ''5''])
       [0, 1, 1, 0, 1]
       (start 2 (map exampleEndpoint [''1'', ''2'', ''3'', ''4'', ''5'']))) = 5 \<and>
   finished (run (enrich allSucceed) (map exampleEndpoint [''1'', ''2'', ''3'', ''4'', ''5''])
       [0, 1, 1, 0, 1]
       (start 2 (map exampleEndpoint [''1'', ''2'', ''3'', ''4'', ''5'']))) \<and>
   inFlight (run (enrich allSucceed) (map exampleEndpoint [''1'', ''2'', ''3'', ''4'', ''5''])
       [0, 1]
       (start 2 (map exampleEndpoint [''1'', ''2'', ''3'', ''4'', ''5'']))) \<le> 2"
proof -
  let ?eps = "map exampleEndpoint [''1'', ''2'', ''3'', ''4'', ''5'']"
  have ne: "\<forall>ep \<in> set ?eps. fst (enrich allSucceed ep) \<noteq> Exited"
    by (simp add: enrich_def enhanceEndpoint_def allSucceed_def split: prod.splits)
  note th = dispatch_settles_each_task_once[where concurrency=2 and endpoints="?eps"
      and body="enrich allSucceed", OF _ ne, unfolded Let_def]
  have c: "completed (run (enrich allSucceed) ?eps [0, 1, 1, 0, 1]
               (start 2 ?eps :: enhancedEndpoint dispatcher)) = 5"
    by (simp add: start_state eval_defs)
  show ?thesis
    using th[of "[0, 1, 1, 0, 1]"] th[of "[0, 1]"] c by simp
qed


text \<open>
  C2. Evaluation of the dispatcher on three endpoints at concurrency 2, where the
  description request of the second endpoint exhausts its retries and its task settles first:
  the failure is caught by \<open>enhanceEndpoint\<close>, which calls \<open>process.exit(1)\<close>. The process
  has ended with nothing recorded, the first endpoint is still in flight and the third is
  still in the queue, whatever settles afterwards.
\<close>

theorem failing_task_aborts_siblings:
  "exited (run (enrich (descriptionFailsFor ''2''))
       (map exampleEndpoint [''1'', ''2'', ''3'']) [1, 0, 0, 1]
       (start 2 (map exampleEndpoint [''1'', ''2'', ''3'']))) \<and>
   completed (run (enrich (descriptionFailsFor ''2''))
       (map exampleEndpoint [''1'', ''2'', ''3'']) [1, 0, 0, 1]
       (start 2 (map exampleEndpoint [''1'', ''2'', ''3'']))) = 0 \<and>
   queue (run (enrich (descriptionFailsFor ''2''))
       (map exampleEndpoint [''1'', ''2'', ''3'']) [1, 0, 0, 1]
       (start 2 (map exampleEndpoint [''1'', ''2'', ''3'']))) = [exampleEndpoint ''3''] \<and>
   inFlightTasks (run (enrich (descriptionFailsFor ''2''))
       (map exampleEndpoint [''1'', ''2'', ''3'']) [1, 0, 0, 1]
       (start 2 (map exampleEndpoint [''1'', ''2'', ''3'']))) =
     [exampleEndpoint ''1'', exampleEndpoint ''2'']"
  by (simp add: start_state eval_defs inFlightTasks_def)



text \<open>
  C8. Evaluation of the dispatcher on two endpoints at concurrency 1, where the description
  request of the first endpoint exhausts its retries: the process is ended by
  \<open>process.exit(1)\<close> and none of the two outcomes is recorded.
\<close>

theorem failing_task_ends_dispatch:
  "exited (run (enrich (descriptionFailsFor ''1'')) (map exampleEndpoint [''1'', ''2'']) [0, 0]
       (start 1 (map exampleEndpoint [''1'', ''2'']))) \<and>
   completed (run (enrich (descriptionFailsFor ''1'')) (map exampleEndpoint [''1'', ''2'']) [0, 0]
       (start 1 (map exampleEndpoint [''1'', ''2'']))) = 0 \<and>
   results (run (enrich (descriptionFailsFor ''1'')) (map exampleEndpoint [''1'', ''2'']) [0, 0]
       (start 1 (map exampleEndpoint [''1'', ''2'']))) = [] \<and>
   length (map exampleEndpoint [''1'', ''2'']) = 2"
  by (simp add: start_state eval_defs)


text \<open>With a concurrency of 0 the \<open>for\<close> loop starts no worker: \<open>Promise.all\<close> resolves at
  once and nothing is recorded.\<close>

lemma zero_concurrency_records_nothing:
  "finished (start 0 (map exampleEndpoint [''1'', ''2'', ''3'']) :: enhancedEndpoint dispatcher) \<and>
   completed (start 0 (map exampleEndpoint [''1'', ''2'', ''3'']) :: enhancedEndpoint dispatcher) = 0 \<and>
   queue (start 0 (map exampleEndpoint [''1'', ''2'', ''3'']) :: enhancedEndpoint dispatcher)
     = map exampleEndpoint [''1'', ''2'', ''3'']"
  by (simp add: start_state finished_def)

end
